theory Spec2Isabelle
  imports Main
begin

section \<open>The mutation-string functions of \<open>paper/gfp_prediction.ipynb\<close>\<close>

text \<open>
  The notebook defines four pure functions on Python strings: \<open>aa_pos\<close>, \<open>aa_letter\<close>,
  \<open>mut2seq\<close> and \<open>count_mutations\<close>. They are embedded here together with the parts
  of the Python built-ins they call: \<open>int\<close> on a string, \<open>str.split\<close> with a separator,
  slicing, and assignment to a list element.

  A Python \<open>str\<close> is a \<open>string\<close>; its characters are the code points below 256. An
  exception is a value \<open>Inl e\<close> of a sum type; a normal return is \<open>Inr v\<close>.
\<close>

subsection \<open>Exceptions\<close>

text \<open>
  Python raises \<open>ValueError\<close> in four places that matter here, told apart by their message:
  \<open>int\<close> on a string that is no integer literal, \<open>str.split\<close> on an empty separator, and
  the two \<open>raise ValueError\<close> statements of \<open>mut2seq\<close>.
\<close>

datatype value_error =
    InvalidLiteral
  | EmptySeparator
  | PositionIsZero
  | PositionGreaterThanLength

datatype error =
    ValueError value_error
  | TypeError
  | IndexError
  | AttributeError

text \<open>
  The specification names two error kinds. \<open>MalformedTokenError\<close> is the \<open>ValueError\<close> of
  \<open>int\<close>; \<open>InvalidPositionError\<close> is either \<open>ValueError\<close> raised by \<open>mut2seq\<close> itself.
\<close>

definition MalformedTokenError :: "error \<Rightarrow> bool" where
  "MalformedTokenError e = (e = ValueError InvalidLiteral)"

definition InvalidPositionError :: "error \<Rightarrow> bool" where
  "InvalidPositionError e =
     (e = ValueError PositionIsZero \<or> e = ValueError PositionGreaterThanLength)"

subsection \<open>\<open>int(s)\<close> for a string \<open>s\<close>\<close>

text \<open>
  \<open>int\<close> removes white space at both ends, accepts one sign, and then wants decimal digits,
  where a single underscore may stand between two digits. Among the code points below 256
  the white space it removes is \<open>\t \n \x0b \x0c \r\<close>, the blank, \<open>\x85\<close> and \<open>\xa0\<close>, and
  the decimal digits are \<open>0\<close> to \<open>9\<close>. Leading zeros are accepted. No limit on the number of
  digits is modelled.
\<close>

definition is_space :: "char \<Rightarrow> bool" where
  "is_space c =
     (c \<in> set [CHR 0x09, CHR 0x0A, CHR 0x0B, CHR 0x0C, CHR 0x0D, CHR 0x20, CHR 0x85, CHR 0xA0])"

definition is_digit :: "char \<Rightarrow> bool" where
  "is_digit c = (c \<in> set ''0123456789'')"

definition digit_val :: "char \<Rightarrow> int" where
  "digit_val c = int (of_char c) - 48"

definition strip :: "string \<Rightarrow> string" where
  "strip s = rev (dropWhile is_space (rev (dropWhile is_space s)))"

text \<open>\<open>digits_from acc s\<close> reads the rest of a literal after a digit, with value \<open>acc\<close> so far.\<close>

fun digits_from :: "int \<Rightarrow> string \<Rightarrow> int option" where
  "digits_from acc [] = Some acc"
| "digits_from acc [c] =
     (if is_digit c then Some (10 * acc + digit_val c) else None)"
| "digits_from acc (c # d # s) =
     (if is_digit c then digits_from (10 * acc + digit_val c) (d # s)
      else if c = CHR ''_'' \<and> is_digit d then digits_from (10 * acc + digit_val d) s
      else None)"

definition unsigned_literal :: "string \<Rightarrow> int option" where
  "unsigned_literal s =
     (case s of
        [] \<Rightarrow> None
      | c # r \<Rightarrow> if is_digit c then digits_from (digit_val c) r else None)"

definition signed_literal :: "string \<Rightarrow> int option" where
  "signed_literal s =
     (case s of
        [] \<Rightarrow> None
      | c # r \<Rightarrow>
          if c = CHR ''-'' then map_option uminus (unsigned_literal r)
          else if c = CHR ''+'' then unsigned_literal r
          else unsigned_literal s)"

definition py_int :: "string \<Rightarrow> error + int" where
  "py_int s =
     (case signed_literal (strip s) of
        None \<Rightarrow> Inl (ValueError InvalidLiteral)
      | Some n \<Rightarrow> Inr n)"

subsection \<open>\<open>s.split(sep)\<close>\<close>

text \<open>
  With a separator string, \<open>split\<close> scans from the left, cuts at each occurrence of the
  separator and goes on behind it; an empty separator raises \<open>ValueError\<close>. The result has
  at least one element. \<open>split_scan sep cur s\<close> has read the characters \<open>cur\<close> (in reverse)
  of the current piece and has \<open>s\<close> left to read.
\<close>

function split_scan :: "string \<Rightarrow> string \<Rightarrow> string \<Rightarrow> string list" where
  "split_scan sep cur [] = [rev cur]"
| "split_scan sep cur (c # s) =
     (if sep \<noteq> [] \<and> take (length sep) (c # s) = sep
      then rev cur # split_scan sep [] (drop (length sep) (c # s))
      else split_scan sep (c # cur) s)"
  by pat_completeness auto
termination
  by (relation "measure (\<lambda>(sep, cur, s). length s)") auto

definition str_split :: "string \<Rightarrow> string \<Rightarrow> error + string list" where
  "str_split s sep =
     (if sep = [] then Inl (ValueError EmptySeparator) else Inr (split_scan sep [] s))"

subsection \<open>\<open>sep.join(xs)\<close>\<close>

fun str_join :: "string \<Rightarrow> string list \<Rightarrow> string" where
  "str_join sep [] = []"
| "str_join sep [x] = x"
| "str_join sep (x # y # xs) = x @ sep @ str_join sep (y # xs)"

subsection \<open>\<open>xs[i] = v\<close> on a list\<close>

text \<open>
  An index from \<open>0\<close> to \<open>len(xs) - 1\<close> is written as it is, an index from \<open>-len(xs)\<close> to
  \<open>-1\<close> counts from the end, and any other index raises \<open>IndexError\<close>.
\<close>

definition list_setitem :: "'a list \<Rightarrow> int \<Rightarrow> 'a \<Rightarrow> error + 'a list" where
  "list_setitem xs i v =
     (let n = int (length xs) in
      if 0 \<le> i \<and> i < n then Inr (xs[nat i := v])
      else if - n \<le> i \<and> i < 0 then Inr (xs[nat (n + i) := v])
      else Inl IndexError)"

subsection \<open>\<open>aa_pos\<close> and \<open>aa_letter\<close>\<close>

text \<open>
  \<^verbatim>\<open>
  def aa_pos(mut):
      if not mut:
          return mut
      else:
          return int(mut[2:-1])
  \<close>
  For an empty string the result is that string, otherwise an integer, so the result is
  a value of either kind. The slice \<open>mut[2:-1]\<close> drops the first two characters and the
  last one, and is empty when \<open>mut\<close> has at most three characters.
\<close>

datatype py_value = PyStr string | PyInt int

definition slice_2_m1 :: "string \<Rightarrow> string" where
  "slice_2_m1 mut = drop 2 (butlast mut)"

definition aa_pos :: "string \<Rightarrow> error + py_value" where
  "aa_pos mut =
     (if mut = [] then Inr (PyStr mut)
      else (case py_int (slice_2_m1 mut) of
              Inl e \<Rightarrow> Inl e
            | Inr n \<Rightarrow> Inr (PyInt n)))"

text \<open>
  \<^verbatim>\<open>
  def aa_letter(mut):
      if not mut:
          return mut
      else:
          return mut[-1]
  \<close>
\<close>

definition aa_letter :: "string \<Rightarrow> string" where
  "aa_letter mut = (if mut = [] then mut else [last mut])"

subsection \<open>\<open>mut2seq\<close>\<close>

text \<open>
  The body of the loop of \<open>mut2seq\<close>, for one token \<open>mut\<close>, on the working list
  \<open>mutant_sequence\<close> (a list of strings, as \<open>list(wt_sequence)\<close> is):
  \<^verbatim>\<open>
      position = aa_pos(mut)
      letter = aa_letter(mut)
      if position == 0:
          raise ValueError(...)
      if position > len(wt_sequence):
          raise ValueError(...)
      mutant_sequence[
          position #- 1
      ] = letter  # -1 is necessary because the list is zero-indexed
  \<close>
  The index of the assignment is \<open>position\<close> itself: the \<open>- 1\<close> is commented out. An
  empty token has the position \<open>''\<close>: \<open>'' == 0\<close> is false, and
  \<open>'' > len(wt_sequence)\<close> raises \<open>TypeError\<close>.
\<close>

definition loop_body :: "string \<Rightarrow> string list \<Rightarrow> string \<Rightarrow> error + string list" where
  "loop_body wt_sequence mutant_sequence mut =
     (case aa_pos mut of
        Inl e \<Rightarrow> Inl e
      | Inr position \<Rightarrow>
          let letter = aa_letter mut in
          (case position of
             PyStr s \<Rightarrow> Inl TypeError
           | PyInt p \<Rightarrow>
               if p = 0 then Inl (ValueError PositionIsZero)
               else if p > int (length wt_sequence) then Inl (ValueError PositionGreaterThanLength)
               else list_setitem mutant_sequence p letter))"

fun for_loop :: "string \<Rightarrow> string list \<Rightarrow> string list \<Rightarrow> error + string list" where
  "for_loop wt_sequence mutant_sequence [] = Inr mutant_sequence"
| "for_loop wt_sequence mutant_sequence (mut # mutations) =
     (case loop_body wt_sequence mutant_sequence mut of
        Inl e \<Rightarrow> Inl e
      | Inr mutant_sequence' \<Rightarrow> for_loop wt_sequence mutant_sequence' mutations)"

text \<open>
  \<^verbatim>\<open>
  def mut2seq(mutation_string, wt_sequence, delimiter=":"):
      if mutation_string is None or mutation_string == "":
          return wt_sequence
      mutations = mutation_string.split(delimiter)
      mutant_sequence = list(wt_sequence)
      for mut in mutations:
          ...
      return "".join(l for l in mutant_sequence)
  \<close>
  The mutation string may be \<open>None\<close>; the delimiter is a string.
\<close>

definition mut2seq :: "string option \<Rightarrow> string \<Rightarrow> string \<Rightarrow> error + string" where
  "mut2seq mutation_string wt_sequence delimiter =
     (case mutation_string of
        None \<Rightarrow> Inr wt_sequence
      | Some s \<Rightarrow>
          if s = [] then Inr wt_sequence
          else (case str_split s delimiter of
                  Inl e \<Rightarrow> Inl e
                | Inr mutations \<Rightarrow>
                    (case for_loop wt_sequence (map (\<lambda>c. [c]) wt_sequence) mutations of
                       Inl e \<Rightarrow> Inl e
                     | Inr mutant_sequence \<Rightarrow> Inr (str_join [] mutant_sequence))))"

subsection \<open>\<open>count_mutations\<close>\<close>

text \<open>
  \<^verbatim>\<open>
  def count_mutations(x):
      if x == '':
          return 0
      else:
          return len(x.split(":"))
  \<close>
  \<open>None == ''\<close> is false, and \<open>None.split\<close> raises \<open>AttributeError\<close>.
\<close>

definition count_mutations :: "string option \<Rightarrow> error + int" where
  "count_mutations x =
     (case x of
        None \<Rightarrow> Inl AttributeError
      | Some s \<Rightarrow>
          if s = [] then Inr 0
          else (case str_split s '':'' of
                  Inl e \<Rightarrow> Inl e
                | Inr mutations \<Rightarrow> Inr (int (length mutations))))"

subsection \<open>The working list of \<open>mut2seq\<close>\<close>

text \<open>
  What the loop of \<open>mut2seq\<close> keeps true of \<open>mutant_sequence\<close>: it is as long as
  \<open>wt_sequence\<close>, and each of its elements is a string of one character.
\<close>

definition working_copy :: "string \<Rightarrow> string list \<Rightarrow> bool" where
  "working_copy wt_sequence mutant_sequence =
     (length mutant_sequence = length wt_sequence \<and>
      list_all (\<lambda>l. length l = 1) mutant_sequence)"

subsection \<open>The reference sequence of the notebook\<close>

definition wt :: string where
  "wt = ''SKGEELFTGVVPILVELDGDVNGHKFSVSGEGEGDATYGKLTLKFICTTGKLPVPWPTLVTTLSYGVQCFSRYPDHMKQHDFFKSAMPEGYVQERTIFFKDDGNYKTRAEVKFEGDTLVNRIELKGIDFKEDGNILGHKLEYNYNSHNVYIMADKQKNGIKVNFKIRHNIEDGSVQLADHYQQNTPIGDGPVLLPDNHYLSTQSALSKDPNEKRDHMVLLEFVTAAGITHGMDELYK''"

subsection \<open>The specification's \<open>parse_position\<close>\<close>

text \<open>
  This definition follows the words of the specification and of the docstring of
  \<open>aa_pos\<close>, not the code: the first and the last character are stripped, and everything
  between them is read as a base-10 integer. It is here to be compared with \<open>aa_pos\<close>.
\<close>

definition spec_parse_position :: "string \<Rightarrow> error + int" where
  "spec_parse_position token = py_int (butlast (tl token))"

subsection \<open>The specification's bounds on a position\<close>

text \<open>
  This definition follows the words of the specification, not the code: a position is
  within bounds when \<open>1 <= position <= length(Reference Sequence)\<close>.
\<close>

definition spec_position_in_bounds :: "string \<Rightarrow> int \<Rightarrow> bool" where
  "spec_position_in_bounds wt_sequence position =
     (1 \<le> position \<and> position \<le> int (length wt_sequence))"

section \<open>Properties\<close>

subsection \<open>Assignment, the loop body and the loop\<close>

lemma list_setitem_length:
  "list_setitem xs i v = Inr ys \<Longrightarrow> length ys = length xs"
  by (auto simp: list_setitem_def Let_def split: if_splits)

lemma list_setitem_set:
  "list_setitem xs i v = Inr ys \<Longrightarrow> set ys \<subseteq> insert v (set xs)"
  by (auto simp: list_setitem_def Let_def split: if_splits
      dest: subsetD [OF set_update_subset_insert])

text \<open>A token that the loop body accepts is not empty and has an integer position.\<close>

lemma loop_body_Inr:
  assumes "loop_body wt_sequence ms mut = Inr ms'"
  shows "mut \<noteq> [] \<and> (\<exists>p. aa_pos mut = Inr (PyInt p) \<and> p \<noteq> 0 \<and> p \<le> int (length wt_sequence) \<and>
           list_setitem ms p [last mut] = Inr ms')"
proof (cases "mut = []")
  case True
  then show ?thesis using assms by (simp add: loop_body_def aa_pos_def)
next
  case False
  from assms obtain position where pos: "aa_pos mut = Inr position"
    by (auto simp: loop_body_def split: sum.splits)
  with False obtain p where p: "position = PyInt p"
    by (auto simp: aa_pos_def split: sum.splits)
  from assms pos p False show ?thesis
    by (auto simp: loop_body_def aa_letter_def split: if_splits)
qed

lemma working_copy_init: "working_copy wt_sequence (map (\<lambda>c. [c]) wt_sequence)"
  by (simp add: working_copy_def list_all_iff)

lemma working_copy_loop_body:
  assumes "working_copy wt_sequence ms" "loop_body wt_sequence ms mut = Inr ms'"
  shows "working_copy wt_sequence ms'"
proof -
  from loop_body_Inr [OF assms(2)] obtain p where
    set: "list_setitem ms p [last mut] = Inr ms'" by blast
  have "length ms' = length ms" using set by (rule list_setitem_length)
  moreover have "set ms' \<subseteq> insert [last mut] (set ms)" using set by (rule list_setitem_set)
  ultimately show ?thesis using assms(1)
    by (auto simp: working_copy_def list_all_iff)
qed

lemma working_copy_for_loop:
  "working_copy wt_sequence ms \<Longrightarrow> for_loop wt_sequence ms muts = Inr ms' \<Longrightarrow> working_copy wt_sequence ms'"
proof (induction muts arbitrary: ms)
  case Nil
  then show ?case by simp
next
  case (Cons mut muts)
  from Cons.prems(2) obtain ms1 where
    step: "loop_body wt_sequence ms mut = Inr ms1" and rest: "for_loop wt_sequence ms1 muts = Inr ms'"
    by (auto split: sum.splits)
  from Cons.prems(1) step have "working_copy wt_sequence ms1" by (rule working_copy_loop_body)
  then show ?case using rest by (rule Cons.IH)
qed

lemma str_join_empty_sep: "str_join [] xs = concat xs"
  by (induction "[] :: string" xs rule: str_join.induct) simp_all

lemma length_concat_working_copy:
  "working_copy wt_sequence ms \<Longrightarrow> length (concat ms) = length wt_sequence"
proof -
  have "list_all (\<lambda>l. length l = 1) xs \<Longrightarrow> length (concat xs) = length xs"
    for xs :: "string list"
    by (induction xs) simp_all
  then show "working_copy wt_sequence ms \<Longrightarrow> length (concat ms) = length wt_sequence"
    by (simp add: working_copy_def)
qed

subsection \<open>Splitting and joining\<close>

lemma split_scan_not_Nil: "split_scan sep cur s \<noteq> []"
  by (induction sep cur s rule: split_scan.induct) simp_all

lemma str_join_Cons: "xs \<noteq> [] \<Longrightarrow> str_join sep (x # xs) = x @ sep @ str_join sep xs"
  by (cases xs) simp_all

lemma str_join_split_scan: "str_join sep (split_scan sep cur s) = rev cur @ s"
proof (induction sep cur s rule: split_scan.induct)
  case (1 sep cur)
  show ?case by simp
next
  case (2 sep cur c s)
  show ?case
  proof (cases "sep \<noteq> [] \<and> take (length sep) (c # s) = sep")
    case True
    then have "sep @ drop (length sep) (c # s) = c # s"
      by (metis append_take_drop_id)
    with True 2(1) show ?thesis
      by (simp add: str_join_Cons split_scan_not_Nil)
  next
    case False
    with 2(2) show ?thesis by auto
  qed
qed

lemma split_scan_token_length:
  "t \<in> set (split_scan sep cur s) \<Longrightarrow> length t \<le> length cur + length s"
proof (induction sep cur s rule: split_scan.induct)
  case (1 sep cur)
  then show ?case by simp
next
  case (2 sep cur c s)
  show ?case
  proof (cases "sep \<noteq> [] \<and> take (length sep) (c # s) = sep")
    case True
    with 2(1,3) show ?thesis by (auto simp del: drop_Suc_Cons take_Suc_Cons)
  next
    case False
    with 2(2,3) show ?thesis by auto
  qed
qed

lemma split_scan_char_length:
  "length (split_scan [c] cur s) = Suc (count_list s c)"
  by (induction s arbitrary: cur) auto

lemma split_scan_char_free:
  "c \<notin> set cur \<Longrightarrow> t \<in> set (split_scan [c] cur s) \<Longrightarrow> c \<notin> set t"
proof (induction s arbitrary: cur)
  case Nil
  then show ?case by simp
next
  case (Cons a s)
  show ?case
  proof (cases "a = c")
    case True
    with Cons.prems have "t = rev cur \<or> t \<in> set (split_scan [c] [] s)" by simp
    then show ?thesis
    proof
      assume "t = rev cur"
      with Cons.prems(1) show ?thesis by simp
    next
      assume "t \<in> set (split_scan [c] [] s)"
      with Cons.IH [of "[]"] show ?thesis by simp
    qed
  next
    case False
    with Cons.prems have "c \<notin> set (a # cur)" "t \<in> set (split_scan [c] (a # cur) s)"
      by simp_all
    then show ?thesis by (rule Cons.IH)
  qed
qed

subsection \<open>Tokens that are rejected\<close>

lemmas py_int_eval =
  py_int_def strip_def is_space_def signed_literal_def unsigned_literal_def
  is_digit_def digit_val_def

lemmas aa_pos_eval = aa_pos_def slice_2_m1_def py_int_eval

lemma slice_2_m1_short: "length mut \<le> 3 \<Longrightarrow> slice_2_m1 mut = []"
  by (simp add: slice_2_m1_def)

lemma py_int_Nil: "py_int [] = Inl (ValueError InvalidLiteral)"
  by (simp add: py_int_def strip_def signed_literal_def)

lemma aa_pos_short:
  "mut \<noteq> [] \<Longrightarrow> length mut \<le> 3 \<Longrightarrow> aa_pos mut = Inl (ValueError InvalidLiteral)"
  by (simp add: aa_pos_def slice_2_m1_short py_int_Nil)

lemma loop_body_short: "length mut \<le> 3 \<Longrightarrow> \<exists>e. loop_body wt_sequence ms mut = Inl e"
  by (cases "mut = []") (simp_all add: loop_body_def aa_pos_short, simp add: aa_pos_def)

text \<open>A token that the loop body rejects on every working list makes the loop fail.\<close>

lemma for_loop_rejects:
  "mut \<in> set muts \<Longrightarrow> \<forall>ms. \<exists>e. loop_body wt_sequence ms mut = Inl e \<Longrightarrow>
   \<exists>e. for_loop wt_sequence ms muts = Inl e"
proof (induction muts arbitrary: ms)
  case Nil
  then show ?case by simp
next
  case (Cons m muts)
  show ?case
  proof (cases "loop_body wt_sequence ms m")
    case (Inl e)
    then show ?thesis by simp
  next
    case (Inr ms1)
    have "mut \<noteq> m"
    proof
      assume "mut = m"
      with Cons.prems(2) obtain e where "loop_body wt_sequence ms m = Inl e" by blast
      with Inr show False by simp
    qed
    with Cons.prems(1) have "mut \<in> set muts" by simp
    from Cons.IH [OF this Cons.prems(2)] Inr show ?thesis by simp
  qed
qed

lemma mut2seq_rejects:
  assumes "str_split s delimiter = Inr toks" "mut \<in> set toks"
    and "\<forall>ms. \<exists>e. loop_body wt_sequence ms mut = Inl e"
    and "s \<noteq> []"
  shows "\<exists>e. mut2seq (Some s) wt_sequence delimiter = Inl e"
proof -
  from for_loop_rejects [OF assms(2,3)] obtain e where
    "for_loop wt_sequence (map (\<lambda>c. [c]) wt_sequence) toks = Inl e" by blast
  with assms(1,4) show ?thesis by (simp add: mut2seq_def)
qed

lemma str_split_Nil: "str_split [] delimiter = Inr toks \<Longrightarrow> toks = [Nil]"
  by (auto simp: str_split_def split: if_splits)

subsection \<open>A mutation string of one token\<close>

lemma concat_singletons_update:
  "concat ((map (\<lambda>c. [c]) xs)[i := [v]]) = xs[i := v]"
proof (induction xs arbitrary: i)
  case Nil
  show ?case by simp
next
  case (Cons x xs)
  show ?case by (cases i) (simp_all add: Cons.IH)
qed

text \<open>One token with an integer position that passes both checks, on the fresh working list.\<close>

lemma mut2seq_single_token:
  assumes sp: "str_split s delimiter = Inr [mut]"
    and pos: "aa_pos mut = Inr (PyInt p)"
    and chk: "p \<noteq> 0" "p \<le> int (length wt_sequence)"
    and set: "list_setitem (map (\<lambda>c. [c]) wt_sequence) p [last mut] =
                Inr ((map (\<lambda>c. [c]) wt_sequence)[i := [last mut]])"
  shows "mut2seq (Some s) wt_sequence delimiter = Inr (wt_sequence[i := last mut])"
proof -
  have ne: "mut \<noteq> []" using pos by (auto simp: aa_pos_def)
  have "s \<noteq> []"
  proof
    assume "s = []"
    with sp have "[mut] = [Nil]" using str_split_Nil by blast
    with ne show False by simp
  qed
  moreover have "loop_body wt_sequence (map (\<lambda>c. [c]) wt_sequence) mut =
      Inr ((map (\<lambda>c. [c]) wt_sequence)[i := [last mut]])"
    using pos chk set ne by (simp add: loop_body_def aa_letter_def)
  ultimately show ?thesis using sp
    by (simp add: mut2seq_def str_join_empty_sep concat_singletons_update)
qed

subsection \<open>The two checks of the loop body\<close>

text \<open>The loop body on a token whose position is not negative and not the length.\<close>

lemma loop_body_nonneg:
  assumes "aa_pos mut = Inr (PyInt p)" "0 \<le> p" "p \<noteq> int (length wt_sequence)"
    and "length ms = length wt_sequence"
  shows "loop_body wt_sequence ms mut =
     (if p = 0 then Inl (ValueError PositionIsZero)
      else if p > int (length wt_sequence) then Inl (ValueError PositionGreaterThanLength)
      else Inr (ms[nat p := [last mut]]))"
proof -
  have "mut \<noteq> []" using assms(1) by (auto simp: aa_pos_def)
  with assms show ?thesis
    by (simp add: loop_body_def aa_letter_def list_setitem_def)
qed

lemma loop_body_out_of_range:
  assumes "aa_pos mut = Inr (PyInt p)" "p = 0 \<or> p > int (length wt_sequence)"
  shows "\<exists>e. loop_body wt_sequence ms mut = Inl e \<and> InvalidPositionError e"
  using assms by (auto simp: loop_body_def InvalidPositionError_def)

lemma for_loop_nonneg:
  assumes "length ms = length wt_sequence"
    and "\<forall>t\<in>set toks. \<exists>p. aa_pos t = Inr (PyInt p) \<and> 0 \<le> p \<and> p \<noteq> int (length wt_sequence)"
  shows "if \<forall>t\<in>set toks. \<exists>p. aa_pos t = Inr (PyInt p) \<and> spec_position_in_bounds wt_sequence p
         then \<exists>r. for_loop wt_sequence ms toks = Inr r
         else \<exists>e. for_loop wt_sequence ms toks = Inl e \<and> InvalidPositionError e"
  using assms
proof (induction toks arbitrary: ms)
  case Nil
  show ?case by simp
next
  case (Cons t toks)
  from Cons.prems(2) obtain p where
    p: "aa_pos t = Inr (PyInt p)" "0 \<le> p" "p \<noteq> int (length wt_sequence)" by auto
  have step: "loop_body wt_sequence ms t =
     (if p = 0 then Inl (ValueError PositionIsZero)
      else if p > int (length wt_sequence) then Inl (ValueError PositionGreaterThanLength)
      else Inr (ms[nat p := [last t]]))"
    using p Cons.prems(1) by (rule loop_body_nonneg)
  show ?case
  proof (cases "spec_position_in_bounds wt_sequence p")
    case True
    with step have ok: "loop_body wt_sequence ms t = Inr (ms[nat p := [last t]])"
      by (simp add: spec_position_in_bounds_def)
    have "length (ms[nat p := [last t]]) = length wt_sequence"
      using Cons.prems(1) by simp
    moreover have "\<forall>t\<in>set toks. \<exists>p. aa_pos t = Inr (PyInt p) \<and> 0 \<le> p \<and> p \<noteq> int (length wt_sequence)"
      using Cons.prems(2) by simp
    ultimately have
      "if \<forall>t\<in>set toks. \<exists>p. aa_pos t = Inr (PyInt p) \<and> spec_position_in_bounds wt_sequence p
       then \<exists>r. for_loop wt_sequence (ms[nat p := [last t]]) toks = Inr r
       else \<exists>e. for_loop wt_sequence (ms[nat p := [last t]]) toks = Inl e \<and> InvalidPositionError e"
      by (rule Cons.IH)
    with ok p(1) True show ?thesis by simp
  next
    case False
    with p(2) have "p = 0 \<or> p > int (length wt_sequence)"
      by (auto simp: spec_position_in_bounds_def)
    with step have "\<exists>e. loop_body wt_sequence ms t = Inl e \<and> InvalidPositionError e"
      by (auto simp: InvalidPositionError_def)
    moreover have "\<not> (\<forall>t\<in>set (t # toks). \<exists>p. aa_pos t = Inr (PyInt p) \<and> spec_position_in_bounds wt_sequence p)"
      using p(1) False by auto
    ultimately show ?thesis by auto
  qed
qed

subsection \<open>The claims\<close>

text \<open>
  C1. The claim is that \<open>aa_pos\<close> returns the integer between the first and the last
  character of a token, \<open>111\<close> for \<open>A111C\<close>, as its docstring says. The code slices
  \<open>mut[2:-1]\<close>, which drops the first digit too: \<open>aa_pos\<close> returns \<open>11\<close> for \<open>A111C\<close>,
  where stripping only the first and the last character gives \<open>111\<close>.
\<close>

theorem aa_pos_A111C:
  "aa_pos ''A111C'' = Inr (PyInt 11) \<and> spec_parse_position ''A111C'' = Inr 111"
  by (simp add: aa_pos_eval spec_parse_position_def)

text \<open>
  C2. The claim is that \<open>mut2seq\<close> on \<open>A111T\<close> changes a reference sequence of at least
  112 characters at index 111 only, to \<open>T\<close>. The code reads the position of \<open>A111T\<close> as
  \<open>11\<close> (the slice \<open>mut[2:-1]\<close> again): for every such reference sequence it writes
  \<open>T\<close> at index 11 and leaves index 111 as it was.
\<close>

theorem mut2seq_A111T:
  "112 \<le> length R \<Longrightarrow>
   mut2seq (Some ''A111T'') R '':'' = Inr (R[11 := CHR ''T'']) \<and>
   (R[11 := CHR ''T'']) ! 111 = R ! 111"
proof -
  assume len: "112 \<le> length R"
  have sp: "str_split ''A111T'' '':'' = Inr [''A111T'']"
    by (simp add: str_split_def)
  have pos: "aa_pos ''A111T'' = Inr (PyInt 11)"
    by (simp add: aa_pos_eval)
  have set: "list_setitem (map (\<lambda>c. [c]) R) 11 [last ''A111T''] =
      Inr ((map (\<lambda>c. [c]) R)[11 := [last ''A111T'']])"
    using len by (simp add: list_setitem_def)
  have "mut2seq (Some ''A111T'') R '':'' = Inr (R[11 := last ''A111T''])"
    using sp pos _ _ set by (rule mut2seq_single_token) (use len in simp_all)
  then show ?thesis by simp
qed

theorem mut2seq_A111T_witness:
  "112 \<le> length wt \<and>
   mut2seq (Some ''A111T'') wt '':'' = Inr (wt[11 := CHR ''T'']) \<and>
   wt ! 11 = CHR ''P'' \<and> wt ! 111 = CHR ''K'' \<and> (wt[11 := CHR ''T'']) ! 111 = CHR ''K''"
proof -
  have len: "112 \<le> length wt" by (simp add: wt_def)
  have "wt ! 11 = CHR ''P''" "wt ! 111 = CHR ''K''" by (simp_all add: wt_def)
  with mut2seq_A111T [OF len] len show ?thesis by simp
qed

text \<open>
  C3. The claim is that \<open>mut2seq\<close> fails with \<open>InvalidPositionError\<close> exactly when some
  token's position is outside \<open>1 <= position <= len(wt_sequence)\<close>, and succeeds when
  all are inside. The loop body checks \<open>position == 0\<close> and
  \<open>position > len(wt_sequence)\<close> and nothing else. What holds: a token whose position
  is \<open>0\<close> or greater than the length makes \<open>mut2seq\<close> fail, whatever the other tokens
  are; and for a mutation string whose tokens all have a position that is not negative
  and not equal to the length, \<open>mut2seq\<close> fails with \<open>InvalidPositionError\<close> exactly
  when some position is outside the bounds, and returns exactly when all are inside.
\<close>

theorem mut2seq_position_bounds:
  assumes sp: "str_split s delimiter = Inr toks"
  shows "((\<exists>t\<in>set toks. \<exists>p. aa_pos t = Inr (PyInt p) \<and> (p = 0 \<or> p > int (length wt_sequence))) \<longrightarrow>
            (\<exists>e. mut2seq (Some s) wt_sequence delimiter = Inl e)) \<and>
         ((\<forall>t\<in>set toks. \<exists>p. aa_pos t = Inr (PyInt p) \<and> 0 \<le> p \<and> p \<noteq> int (length wt_sequence)) \<longrightarrow>
            ((\<exists>e. mut2seq (Some s) wt_sequence delimiter = Inl e \<and> InvalidPositionError e) \<longleftrightarrow>
               (\<exists>t\<in>set toks. \<exists>p. aa_pos t = Inr (PyInt p) \<and> \<not> spec_position_in_bounds wt_sequence p)) \<and>
            ((\<exists>r. mut2seq (Some s) wt_sequence delimiter = Inr r) \<longleftrightarrow>
               (\<forall>t\<in>set toks. \<exists>p. aa_pos t = Inr (PyInt p) \<and> spec_position_in_bounds wt_sequence p)))"
proof (rule conjI; rule impI)
  assume "\<exists>t\<in>set toks. \<exists>p. aa_pos t = Inr (PyInt p) \<and> (p = 0 \<or> p > int (length wt_sequence))"
  then obtain t p where t: "t \<in> set toks" "aa_pos t = Inr (PyInt p)"
    "p = 0 \<or> p > int (length wt_sequence)" by blast
  have rej: "\<forall>ms. \<exists>e. loop_body wt_sequence ms t = Inl e"
    using loop_body_out_of_range [OF t(2,3)] by blast
  have "s \<noteq> []"
  proof
    assume "s = []"
    with sp have "toks = [Nil]" using str_split_Nil by blast
    with t(1,2) show False by (simp add: aa_pos_def)
  qed
  with sp t(1) rej show "\<exists>e. mut2seq (Some s) wt_sequence delimiter = Inl e"
    by (rule mut2seq_rejects)
next
  assume dom: "\<forall>t\<in>set toks. \<exists>p. aa_pos t = Inr (PyInt p) \<and> 0 \<le> p \<and> p \<noteq> int (length wt_sequence)"
  let ?all = "\<forall>t\<in>set toks. \<exists>p. aa_pos t = Inr (PyInt p) \<and> spec_position_in_bounds wt_sequence p"
  let ?loop = "for_loop wt_sequence (map (\<lambda>c. [c]) wt_sequence) toks"
  have "toks \<noteq> [Nil]" using dom by (auto simp: aa_pos_def)
  with sp have ne: "s \<noteq> []" using str_split_Nil by blast
  have loop: "if ?all then \<exists>r. ?loop = Inr r else \<exists>e. ?loop = Inl e \<and> InvalidPositionError e"
    using _ dom by (rule for_loop_nonneg) simp
  have res: "mut2seq (Some s) wt_sequence delimiter =
      (case ?loop of Inl e \<Rightarrow> Inl e | Inr ms \<Rightarrow> Inr (str_join [] ms))"
    using sp ne by (simp add: mut2seq_def)
  have some: "(\<exists>t\<in>set toks. \<exists>p. aa_pos t = Inr (PyInt p) \<and> \<not> spec_position_in_bounds wt_sequence p)
      \<longleftrightarrow> \<not> ?all"
    using dom by fastforce
  show "((\<exists>e. mut2seq (Some s) wt_sequence delimiter = Inl e \<and> InvalidPositionError e) \<longleftrightarrow>
           (\<exists>t\<in>set toks. \<exists>p. aa_pos t = Inr (PyInt p) \<and> \<not> spec_position_in_bounds wt_sequence p)) \<and>
        ((\<exists>r. mut2seq (Some s) wt_sequence delimiter = Inr r) \<longleftrightarrow> ?all)"
  proof (cases ?all)
    case True
    with loop obtain r where "?loop = Inr r" by auto
    with res have "mut2seq (Some s) wt_sequence delimiter = Inr (str_join [] r)" by simp
    with True some show ?thesis by simp
  next
    case False
    with loop obtain e where "?loop = Inl e" "InvalidPositionError e" by auto
    with res have "mut2seq (Some s) wt_sequence delimiter = Inl e" by simp
    with False some \<open>InvalidPositionError e\<close> show ?thesis by auto
  qed
qed

theorem mut2seq_position_bounds_witness:
  "str_split ''SA1T:SK5R'' '':'' = Inr [''SA1T'', ''SK5R''] \<and>
   aa_pos ''SA1T'' = Inr (PyInt 1) \<and> aa_pos ''SK5R'' = Inr (PyInt 5) \<and>
   \<not> spec_position_in_bounds ''SKGE'' 5 \<and>
   (\<exists>e. mut2seq (Some ''SA1T:SK5R'') ''SKGE'' '':'' = Inl e \<and> InvalidPositionError e) \<and>
   str_split ''SA1T:SK2R'' '':'' = Inr [''SA1T'', ''SK2R''] \<and>
   aa_pos ''SK2R'' = Inr (PyInt 2) \<and>
   spec_position_in_bounds ''SKGE'' 1 \<and> spec_position_in_bounds ''SKGE'' 2 \<and>
   (\<exists>r. mut2seq (Some ''SA1T:SK2R'') ''SKGE'' '':'' = Inr r)"
proof -
  have sp: "str_split ''SA1T:SK5R'' '':'' = Inr [''SA1T'', ''SK5R'']"
    "str_split ''SA1T:SK2R'' '':'' = Inr [''SA1T'', ''SK2R'']"
    by (simp_all add: str_split_def)
  have pos: "aa_pos ''SA1T'' = Inr (PyInt 1)" "aa_pos ''SK5R'' = Inr (PyInt 5)"
    "aa_pos ''SK2R'' = Inr (PyInt 2)"
    by (simp_all add: aa_pos_eval)
  have bad: "\<exists>e. mut2seq (Some ''SA1T:SK5R'') ''SKGE'' '':'' = Inl e \<and> InvalidPositionError e"
    using mut2seq_position_bounds [OF sp(1), of "''SKGE''"]
    by (simp add: pos spec_position_in_bounds_def)
  have good: "\<exists>r. mut2seq (Some ''SA1T:SK2R'') ''SKGE'' '':'' = Inr r"
    using mut2seq_position_bounds [OF sp(2), of "''SKGE''"]
    by (simp add: pos spec_position_in_bounds_def)
  from sp pos bad good show ?thesis
    by (simp add: spec_position_in_bounds_def)
qed

text \<open>
  Where the claim of C3 fails as it is stated: the position \<open>-1\<close> is below the lower
  bound, and \<open>mut2seq\<close> returns, with the last character replaced; the position \<open>4\<close> is
  within the bounds for a reference sequence of four characters, and \<open>mut2seq\<close> fails,
  with \<open>IndexError\<close>.
\<close>

theorem position_bounds_counterexample:
  "str_split ''SA-1T'' '':'' = Inr [''SA-1T''] \<and>
   aa_pos ''SA-1T'' = Inr (PyInt (- 1)) \<and>
   \<not> spec_position_in_bounds ''SKGE'' (- 1) \<and>
   mut2seq (Some ''SA-1T'') ''SKGE'' '':'' = Inr ''SKGT'' \<and>
   str_split ''SA4T'' '':'' = Inr [''SA4T''] \<and>
   aa_pos ''SA4T'' = Inr (PyInt 4) \<and>
   spec_position_in_bounds ''SKGE'' 4 \<and>
   mut2seq (Some ''SA4T'') ''SKGE'' '':'' = Inl IndexError \<and>
   \<not> InvalidPositionError IndexError"
proof -
  have a: "aa_pos ''SA-1T'' = Inr (PyInt (- 1))" "aa_pos ''SA4T'' = Inr (PyInt 4)"
    by (simp_all add: aa_pos_eval)
  have s: "str_split ''SA-1T'' '':'' = Inr [''SA-1T'']" "str_split ''SA4T'' '':'' = Inr [''SA4T'']"
    by (simp_all add: str_split_def)
  have m1: "mut2seq (Some ''SA-1T'') ''SKGE'' '':'' = Inr ''SKGT''"
    by (simp add: mut2seq_def s loop_body_def a aa_letter_def list_setitem_def)
  have m2: "mut2seq (Some ''SA4T'') ''SKGE'' '':'' = Inl IndexError"
    by (simp add: mut2seq_def s loop_body_def a aa_letter_def list_setitem_def)
  from a s m1 m2 show ?thesis
    by (simp add: spec_position_in_bounds_def InvalidPositionError_def)
qed

text \<open>
  C4. The claim is that \<open>mut2seq\<close> on \<open>A1T\<close> and the reference \<open>SKGE\<close> returns \<open>STGE\<close>.
  The code fails there: the slice \<open>mut[2:-1]\<close> of \<open>A1T\<close> is empty, and \<open>int\<close> of the
  empty string raises \<open>ValueError\<close>. With the delimiter \<open>':'\<close> that is the error, and
  no delimiter makes the call return.
\<close>

theorem mut2seq_A1T_SKGE:
  "mut2seq (Some ''A1T'') ''SKGE'' '':'' = Inl (ValueError InvalidLiteral) \<and>
   (\<forall>delimiter. \<exists>e. mut2seq (Some ''A1T'') ''SKGE'' delimiter = Inl e)"
proof
  show "mut2seq (Some ''A1T'') ''SKGE'' '':'' = Inl (ValueError InvalidLiteral)"
    by (simp add: mut2seq_def str_split_def loop_body_def aa_pos_short)
next
  show "\<forall>delimiter. \<exists>e. mut2seq (Some ''A1T'') ''SKGE'' delimiter = Inl e"
  proof
    fix delimiter :: string
    show "\<exists>e. mut2seq (Some ''A1T'') ''SKGE'' delimiter = Inl e"
    proof (cases "delimiter = []")
      case True
      then show ?thesis by (simp add: mut2seq_def str_split_def)
    next
      case False
      define toks where "toks = split_scan delimiter [] ''A1T''"
      have sp: "str_split ''A1T'' delimiter = Inr toks"
        using False by (simp add: str_split_def toks_def)
      have ne: "toks \<noteq> []" by (simp add: toks_def split_scan_not_Nil)
      then have mem: "hd toks \<in> set toks" by simp
      then have "length (hd toks) \<le> 3"
        using split_scan_token_length [of "hd toks" delimiter "[]" "''A1T''"]
        by (simp add: toks_def)
      then have "\<forall>ms. \<exists>e. loop_body ''SKGE'' ms (hd toks) = Inl e"
        by (simp add: loop_body_short)
      with sp mem show ?thesis by (rule mut2seq_rejects) simp
    qed
  qed
qed

text \<open>
  C5. For every reference sequence and every delimiter, \<open>mut2seq\<close> returns the reference
  sequence unchanged both for the empty mutation string and for \<open>None\<close>.
\<close>

theorem mut2seq_identity:
  "mut2seq (Some []) wt_sequence delimiter = Inr wt_sequence \<and>
   mut2seq None wt_sequence delimiter = Inr wt_sequence"
  by (simp add: mut2seq_def)

text \<open>
  C6. Whenever \<open>mut2seq\<close> returns, the returned sequence is as long as the reference
  sequence, for every mutation string, reference sequence and delimiter.
\<close>

theorem mut2seq_length:
  "mut2seq mutation_string wt_sequence delimiter = Inr mutant \<Longrightarrow>
   length mutant = length wt_sequence"
proof -
  assume ok: "mut2seq mutation_string wt_sequence delimiter = Inr mutant"
  show ?thesis
  proof (cases "mutation_string = None \<or> mutation_string = Some []")
    case True
    with ok show ?thesis by (auto simp: mut2seq_def)
  next
    case False
    then obtain s where s: "mutation_string = Some s" "s \<noteq> []" by auto
    with ok obtain mutations ms where
      loop: "for_loop wt_sequence (map (\<lambda>c. [c]) wt_sequence) mutations = Inr ms"
      and m: "mutant = concat ms"
      by (auto simp: mut2seq_def str_join_empty_sep split: sum.splits)
    from working_copy_init loop have "working_copy wt_sequence ms"
      by (rule working_copy_for_loop)
    then show ?thesis using m by (simp add: length_concat_working_copy)
  qed
qed

theorem mut2seq_length_witness:
  "mut2seq (Some ''SA1T:SK2R'') ''SKGE'' '':'' = Inr ''STRE'' \<and>
   length ''STRE'' = length ''SKGE''"
proof -
  have ev: "mut2seq (Some ''SA1T:SK2R'') ''SKGE'' '':'' = Inr ''STRE''"
    by code_simp
  from mut2seq_length [OF ev] ev show ?thesis by simp
qed

text \<open>
  C7. \<open>count_mutations\<close> returns \<open>0\<close> for the empty string and, for a string that is not
  empty, the number of tokens that \<open>':'\<close> separates: the pieces free of \<open>':'\<close> that give
  the string back when joined by \<open>':'\<close>, one more than the string has colons. It is
  \<open>1\<close> for \<open>A111T\<close> and \<open>2\<close> for \<open>A111T:V130A\<close>.
\<close>

theorem count_mutations_tokens:
  "count_mutations (Some []) = Inr 0 \<and>
   (x \<noteq> [] \<longrightarrow>
      (\<exists>toks. str_split x '':'' = Inr toks \<and>
         str_join '':'' toks = x \<and> (\<forall>t\<in>set toks. CHR '':'' \<notin> set t) \<and>
         length toks = Suc (count_list x (CHR '':'')) \<and>
         count_mutations (Some x) = Inr (int (length toks)))) \<and>
   count_mutations (Some ''A111T'') = Inr 1 \<and>
   count_mutations (Some ''A111T:V130A'') = Inr 2"
proof -
  have empty: "count_mutations (Some []) = Inr 0"
    by (simp add: count_mutations_def)
  have split: "str_split x '':'' = Inr (split_scan '':'' [] x)"
    by (simp add: str_split_def)
  have join: "str_join '':'' (split_scan '':'' [] x) = x"
    by (simp add: str_join_split_scan)
  have free: "\<forall>t\<in>set (split_scan '':'' [] x). CHR '':'' \<notin> set t"
    using split_scan_char_free [of "CHR '':''" "[]"] by simp
  have len: "length (split_scan '':'' [] x) = Suc (count_list x (CHR '':''))"
    by (rule split_scan_char_length)
  have cnt: "x \<noteq> [] \<Longrightarrow> count_mutations (Some x) = Inr (int (length (split_scan '':'' [] x)))"
    by (simp add: count_mutations_def str_split_def)
  have one: "count_mutations (Some ''A111T'') = Inr 1"
    by (simp add: count_mutations_def str_split_def)
  have two: "count_mutations (Some ''A111T:V130A'') = Inr 2"
    by (simp add: count_mutations_def str_split_def)
  from empty split join free len cnt one two show ?thesis by blast
qed

theorem count_mutations_tokens_witness:
  "''SA1T:SK2R:SG3A'' \<noteq> [] \<and>
   str_split ''SA1T:SK2R:SG3A'' '':'' = Inr [''SA1T'', ''SK2R'', ''SG3A''] \<and>
   count_mutations (Some ''SA1T:SK2R:SG3A'') = Inr 3"
  using count_mutations_tokens [of "''SA1T:SK2R:SG3A''"]
  by (simp add: str_split_def)

text \<open>
  C8. For every token of one to three characters (such as \<open>A1T\<close>) the slice that
  \<open>aa_pos\<close> takes, without the first two characters and the last one, is empty, so
  \<open>aa_pos\<close> fails with \<open>MalformedTokenError\<close>; and \<open>mut2seq\<close> fails on every mutation
  string whose tokens include such a token.
\<close>

theorem short_token_malformed:
  assumes "mut \<noteq> []" "length mut \<le> 3"
  shows "slice_2_m1 mut = [] \<and>
         (\<exists>e. aa_pos mut = Inl e \<and> MalformedTokenError e) \<and>
         (\<forall>s wt_sequence delimiter toks.
            str_split s delimiter = Inr toks \<and> mut \<in> set toks \<longrightarrow>
            (\<exists>e. mut2seq (Some s) wt_sequence delimiter = Inl e))"
proof (intro conjI allI impI)
  show "slice_2_m1 mut = []" using assms(2) by (rule slice_2_m1_short)
next
  show "\<exists>e. aa_pos mut = Inl e \<and> MalformedTokenError e"
    using assms by (simp add: aa_pos_short MalformedTokenError_def)
next
  fix s wt_sequence delimiter toks
  assume h: "str_split s delimiter = Inr toks \<and> mut \<in> set toks"
  have "s \<noteq> []"
  proof
    assume "s = []"
    with h have "toks = [Nil]" using str_split_Nil by blast
    with h assms(1) show False by simp
  qed
  moreover have "\<forall>ms. \<exists>e. loop_body wt_sequence ms mut = Inl e"
    using assms(2) by (simp add: loop_body_short)
  ultimately show "\<exists>e. mut2seq (Some s) wt_sequence delimiter = Inl e"
    using h mut2seq_rejects by blast
qed

theorem short_token_malformed_witness:
  "''A1T'' \<noteq> [] \<and> length ''A1T'' \<le> 3 \<and>
   aa_pos ''A1T'' = Inl (ValueError InvalidLiteral) \<and>
   str_split ''SA1T:A1T'' '':'' = Inr [''SA1T'', ''A1T''] \<and>
   (\<exists>e. mut2seq (Some ''SA1T:A1T'') ''SKGE'' '':'' = Inl e)"
proof -
  have sp: "str_split ''SA1T:A1T'' '':'' = Inr [''SA1T'', ''A1T'']"
    by (simp add: str_split_def)
  have "''A1T'' \<noteq> []" "length ''A1T'' \<le> 3" by simp_all
  from short_token_malformed [OF this] sp show ?thesis
    by (auto simp: MalformedTokenError_def)
qed



text \<open>
  C10. \<open>count_mutations\<close> has no delimiter parameter and always splits on \<open>':'\<close>: for
  every string that is not empty it returns the number of pieces of \<open>x.split(":")\<close>, one
  more than the string has colons, so for every string that is not empty and has no
  \<open>':'\<close> it returns \<open>1\<close>, whatever delimiter \<open>mut2seq\<close> was given; on \<open>None\<close> it raises an
  error and does not return \<open>0\<close>.
\<close>

theorem count_mutations_colon_only:
  "(x \<noteq> [] \<longrightarrow>
      (\<exists>toks. str_split x '':'' = Inr toks \<and>
         count_mutations (Some x) = Inr (int (length toks))) \<and>
      count_mutations (Some x) = Inr (int (Suc (count_list x (CHR '':''))))) \<and>
   (x \<noteq> [] \<and> CHR '':'' \<notin> set x \<longrightarrow> count_mutations (Some x) = Inr 1) \<and>
   count_mutations None = Inl AttributeError \<and>
   count_mutations None \<noteq> Inr 0"
proof -
  have split: "str_split x '':'' = Inr (split_scan '':'' [] x)"
    by (simp add: str_split_def)
  have cnt: "count_mutations (Some x) = Inr (int (length (split_scan '':'' [] x)))"
    if "x \<noteq> []"
    using that by (simp add: count_mutations_def str_split_def)
  have len: "length (split_scan '':'' [] x) = Suc (count_list x (CHR '':''))"
    by (rule split_scan_char_length)
  have colons: "count_mutations (Some x) = Inr (int (Suc (count_list x (CHR '':''))))"
    if "x \<noteq> []"
    using cnt [OF that] len by simp
  have one: "count_mutations (Some x) = Inr 1" if "x \<noteq> []" "CHR '':'' \<notin> set x"
  proof -
    from that(2) have "count_list x (CHR '':'') = 0" by (simp add: count_list_0_iff)
    with colons [OF that(1)] show ?thesis by simp
  qed
  have none: "count_mutations None = Inl AttributeError"
    by (simp add: count_mutations_def)
  from split cnt colons one none show ?thesis by auto
qed

theorem count_mutations_colon_only_witness:
  "''A111T;V130A'' \<noteq> [] \<and> CHR '':'' \<notin> set ''A111T;V130A'' \<and>
   str_split ''A111T;V130A'' '';'' = Inr [''A111T'', ''V130A''] \<and>
   count_mutations (Some ''A111T;V130A'') = Inr 1 \<and>
   ''SA1T:SK2R;SG3A:SE4K'' \<noteq> [] \<and>
   count_list ''SA1T:SK2R;SG3A:SE4K'' (CHR '':'') = 2 \<and>
   str_split ''SA1T:SK2R;SG3A:SE4K'' '';'' = Inr [''SA1T:SK2R'', ''SG3A:SE4K''] \<and>
   count_mutations (Some ''SA1T:SK2R;SG3A:SE4K'') = Inr 3"
proof -
  have a: "count_mutations (Some ''A111T;V130A'') = Inr 1"
    using count_mutations_colon_only [of "''A111T;V130A''"] by simp
  have c: "count_list ''SA1T:SK2R;SG3A:SE4K'' (CHR '':'') = 2" by simp
  have b: "count_mutations (Some ''SA1T:SK2R;SG3A:SE4K'') = Inr 3"
    using count_mutations_colon_only [of "''SA1T:SK2R;SG3A:SE4K''"]
    by (simp only: c) simp
  from a b c show ?thesis by (simp add: str_split_def)
qed

end
